theory Spec2Isabelle
  imports Main "HOL-Library.Char_ord" "HOL-Library.List_Lexorder" "HOL-Library.AList"
begin

section \<open>The syntax tree (the part of go/ast the rewriter touches)\<close>

text \<open>
  The program parses Go files with go/parser and works on the tree of go/ast. Only the
  nodes the program inspects or builds are modelled; every other expression, statement and
  specification is opaque. Token positions are left out: the program never reads one, it
  only sets the position of the two declarations it appends, which matters to the layout
  chosen by the printer alone.
\<close>

datatype expr =
    Ident string
  | StarExpr expr
  | SelectorExpr expr string
  | BasicLit string
  | CallExpr expr "expr list"
  | OtherExpr string

datatype stmt =
    ReturnStmt "expr list"
  | OtherStmt string

text \<open>ast.Field: the names declared (possibly none) and their type.\<close>

record field =
  Names :: "string list"
  Type :: expr

text \<open>
  ast.FuncDecl. \<open>Recv\<close> is \<open>None\<close> for the nil receiver of a function, and
  \<open>Some l\<close> for a method, \<open>l\<close> being \<open>Recv.List\<close>. \<open>Doc\<close> is the list of comment texts
  (empty for nil), \<open>Params\<close> and \<open>Results\<close> are those of \<open>Type\<close>, and \<open>Body\<close> is
  \<open>None\<close> for a declaration without body.
\<close>

record funcDecl =
  Doc :: "string list"
  Recv :: "field list option"
  Name :: string
  Params :: "field list"
  Results :: "field list"
  Body :: "stmt list option"

text \<open>ast.ImportSpec: the local name (nil, or an identifier) and the path literal.\<close>

record importSpec =
  ImportName :: "string option"
  ImportPath :: string

datatype spec =
    ImportSpec importSpec
  | OtherSpec string

datatype token = IMPORT | CONST | TYPE | VAR

datatype decl =
    FuncDecl funcDecl
  | GenDecl token "spec list"
  | BadDecl

text \<open>ast.File: the imports of the file and its top-level declarations.\<close>

record astFile =
  Imports :: "importSpec list"
  Decls :: "decl list"

section \<open>Errors and the environment\<close>

text \<open>
  A Go error is modelled by its message. A call that returns \<open>(v, err)\<close> returns
  \<open>Inr v\<close>, or \<open>Inl msg\<close>.
\<close>

type_synonym error = string

text \<open>
  What the program asks of the operating system and of the Go library is a parameter:
  \<^item> \<open>goEnv\<close>: the combined output of the command \<open>go env GOROOT\<close> and its error, if any
    (a cancelled context is one such error);
  \<^item> \<open>netDir out\<close>: \<open>filepath.Join(strings.TrimSpace(out), "src", "net")\<close>;
  \<^item> \<open>lstatTree root\<close>: what filepath.Walk finds at \<open>root\<close>: a file, a directory with its
    entries in the order of readDirNames (sorted by name), a directory whose entries cannot
    be read, or a path whose Lstat fails;
  \<^item> \<open>readFile\<close>: os.ReadFile; \<open>parseFile\<close>: parser.ParseFile in mode 0, on the bytes read;
  \<^item> \<open>formatNode\<close>: format.Node, the printer;
  \<^item> \<open>marshal\<close>: json.Marshal, from the value to its text.
\<close>

datatype node =
    File
  | Dir "(string \<times> node) list"
  | DirErr error
  | LstatErr error

datatype json =
    JString string
  | JObject "(string \<times> json) list"

record env =
  goEnv :: "string \<times> error option"
  netDir :: "string \<Rightarrow> string"
  lstatTree :: "string \<Rightarrow> node"
  readFile :: "string \<Rightarrow> error + string"
  parseFile :: "string \<Rightarrow> error + astFile"
  formatNode :: "astFile \<Rightarrow> error + string"
  marshal :: "json \<Rightarrow> error + string"

section \<open>PatternMatcher: findSourcePaths and the two matchers\<close>

text \<open>The first matcher that GetReplacedNetSources passes to findSourcePaths.\<close>

definition dialMatcher :: "funcDecl \<Rightarrow> bool" where
  "dialMatcher decl =
     (if Name decl \<noteq> ''DialContext'' then False
      else case Recv decl of
        None \<Rightarrow> False
      | Some l \<Rightarrow>
          (case l of
            [] \<Rightarrow> False
          | f0 # _ \<Rightarrow>
              if length (Names f0) = 0 then False
              else (case Type f0 of
                StarExpr x \<Rightarrow> (case x of Ident n \<Rightarrow> n = ''Dialer'' | _ \<Rightarrow> False)
              | _ \<Rightarrow> False)))"

text \<open>The second matcher.\<close>

definition listenMatcher :: "funcDecl \<Rightarrow> bool" where
  "listenMatcher decl = (Name decl = ''Listen'' \<and> Recv decl = None)"

text \<open>
  \<open>sourcePathMap\<close> is a Go map with keys only, modelled by the list of its keys, each once.
  \<open>mapSet k m\<close> is the assignment \<open>m[k] = struct{}{}\<close>.
\<close>

definition mapSet :: "string \<Rightarrow> string list \<Rightarrow> string list" where
  "mapSet k m = (if k \<in> set m then m else m @ [k])"

text \<open>The loop over the matchers, for one function declaration.\<close>

fun runMatchers :: "(funcDecl \<Rightarrow> bool) list \<Rightarrow> funcDecl \<Rightarrow> string \<Rightarrow> string list \<Rightarrow> string list" where
  "runMatchers [] funcDecl netPkgFile m = m"
| "runMatchers (matcher # matchers) funcDecl netPkgFile m =
     runMatchers matchers funcDecl netPkgFile
       (if matcher funcDecl then mapSet netPkgFile m else m)"

text \<open>The loop over the declarations of one file; a declaration that is no function is skipped.\<close>

fun scanDecls :: "(funcDecl \<Rightarrow> bool) list \<Rightarrow> decl list \<Rightarrow> string \<Rightarrow> string list \<Rightarrow> string list" where
  "scanDecls matchers [] netPkgFile m = m"
| "scanDecls matchers (d # ds) netPkgFile m =
     (case d of
        FuncDecl funcDecl \<Rightarrow> scanDecls matchers ds netPkgFile (runMatchers matchers funcDecl netPkgFile m)
      | _ \<Rightarrow> scanDecls matchers ds netPkgFile m)"

text \<open>The loop over the files; a file that cannot be read or parsed is skipped.\<close>

fun scanFiles :: "env \<Rightarrow> (funcDecl \<Rightarrow> bool) list \<Rightarrow> string list \<Rightarrow> string list \<Rightarrow> string list" where
  "scanFiles e matchers [] m = m"
| "scanFiles e matchers (netPkgFile # rest) m =
     (case readFile e netPkgFile of
        Inl _ \<Rightarrow> scanFiles e matchers rest m
      | Inr src \<Rightarrow>
          (case parseFile e src of
             Inl _ \<Rightarrow> scanFiles e matchers rest m
           | Inr file \<Rightarrow> scanFiles e matchers rest (scanDecls matchers (Decls file) netPkgFile m)))"

text \<open>
  The keys are collected in the iteration order of the map, which Go leaves unspecified,
  and then sorted by sort.Strings (bytewise lexicographic order, the order of
  \<^typ>\<open>string\<close> here). The model iterates in insertion order; \<open>sort_keys_cong\<close> below shows
  that the order of iteration does not matter to the result.
\<close>

definition findSourcePaths :: "env \<Rightarrow> string list \<Rightarrow> (funcDecl \<Rightarrow> bool) list \<Rightarrow> string list" where
  "findSourcePaths e netPkgFiles matchers = sort (scanFiles e matchers netPkgFiles [])"

section \<open>SourceDiscovery: netPkgDir and netPkgGoFiles\<close>

text \<open>
  netPkgDir returns the pair \<open>(string(out), err)\<close> when the command fails, and the
  directory with a nil error otherwise.
\<close>

definition netPkgDir :: "env \<Rightarrow> string \<times> error option" where
  "netPkgDir e =
     (case goEnv e of
        (out, Some err) \<Rightarrow> (out, Some (''failed to get GOROOT: '' @ err))
      | (out, None) \<Rightarrow> (netDir e out, None))"

text \<open>filepath.Base, filepath.Ext and strings.HasSuffix, for the separator \<open>/\<close>.\<close>

definition Base :: "string \<Rightarrow> string" where
  "Base p =
     (if p = [] then ''.''
      else let q = dropWhile (\<lambda>c. c = CHR ''/'') (rev p);
               r = rev (takeWhile (\<lambda>c. c \<noteq> CHR ''/'') q)
           in if r = [] then ''/'' else r)"

definition Ext :: "string \<Rightarrow> string" where
  "Ext p =
     (let t = takeWhile (\<lambda>c. c \<noteq> CHR ''/'') (rev p)
      in if CHR ''.'' \<in> set t then rev (takeWhile (\<lambda>c. c \<noteq> CHR ''.'') t @ ''.'') else [])"

definition HasSuffix :: "string \<Rightarrow> string \<Rightarrow> bool" where
  "HasSuffix s suffix =
     (length suffix \<le> length s \<and> drop (length s - length suffix) s = suffix)"

text \<open>
  The callback given to filepath.Walk, on the slice \<open>ret\<close> it appends to. Its arguments
  \<open>info\<close> and \<open>err\<close> are one sum here: \<open>Inl err\<close> when \<open>err\<close> is not nil (the callback
  returns before it reads \<open>info\<close>), and \<open>Inr (name, isDir)\<close> otherwise, for \<open>info.Name()\<close>
  and \<open>info.IsDir()\<close>. The result is the error returned and the slice.
\<close>

definition walkFn :: "string \<Rightarrow> error + (string \<times> bool) \<Rightarrow> string list \<Rightarrow> error option \<times> string list" where
  "walkFn path arg ret =
     (case arg of
        Inl err \<Rightarrow> (Some err, ret)
      | Inr (name, isDir) \<Rightarrow>
          if isDir \<or> Ext name \<noteq> ''.go'' then (None, ret)
          else if HasSuffix name ''_test.go'' then (None, ret)
          else (None, ret @ [path]))"

text \<open>
  filepath.Walk of the Go library, with this callback. \<open>walk\<close> calls the callback on a
  file; on a directory it reads the entries, calls the callback with the error of that,
  returns what the callback returned when either is an error, and otherwise walks the
  entries in order, stopping at the first error returned. An entry whose Lstat fails is
  given to the callback with that error. The callback returns nil or the error it was
  given, never the sentinels SkipDir and SkipAll, so their cases are left out. A path is
  joined to an entry name with one separator, which is filepath.Join for a clean root and
  entry names.
\<close>

fun walk :: "string \<Rightarrow> string \<Rightarrow> node \<Rightarrow> string list \<Rightarrow> error option \<times> string list"
and walkEntries :: "string \<Rightarrow> (string \<times> node) list \<Rightarrow> string list \<Rightarrow> error option \<times> string list" where
  "walk path name File ret = walkFn path (Inr (name, False)) ret"
| "walk path name (LstatErr err) ret = walkFn path (Inl err) ret"
| "walk path name (DirErr err) ret = walkFn path (Inl err) ret"
| "walk path name (Dir entries) ret =
     (case walkFn path (Inr (name, True)) ret of
        (Some err1, ret') \<Rightarrow> (Some err1, ret')
      | (None, ret') \<Rightarrow> walkEntries path entries ret')"
| "walkEntries path [] ret = (None, ret)"
| "walkEntries path (entry # rest) ret =
     (case walk (path @ ''/'' @ fst entry) (fst entry) (snd entry) ret of
        (Some err, ret') \<Rightarrow> (Some err, ret')
      | (None, ret') \<Rightarrow> walkEntries path rest ret')"

definition Walk :: "env \<Rightarrow> string \<Rightarrow> string list \<Rightarrow> error option \<times> string list" where
  "Walk e root ret = walk root (Base root) (lstatTree e root) ret"

text \<open>netPkgGoFiles drops the error of the walk and returns what was appended.\<close>

definition netPkgGoFiles :: "env \<Rightarrow> error + string list" where
  "netPkgGoFiles e =
     (case netPkgDir e of
        (_, Some err) \<Rightarrow> Inl err
      | (dir, None) \<Rightarrow> Inr (snd (Walk e dir [])))"

section \<open>SourceRewriter: createReplacedNetSource\<close>

text \<open>The value of the path literal compared against, the quotes included.\<close>

definition unsafeLit :: string where
  "unsafeLit = CHR 0x22 # ''unsafe'' @ [CHR 0x22]"

text \<open>The loop that sets \<open>hasUnsafeImport\<close>: it compares the path alone.\<close>

fun hasUnsafeImport :: "importSpec list \<Rightarrow> bool" where
  "hasUnsafeImport [] = False"
| "hasUnsafeImport (imp # imps) =
     (if ImportPath imp = unsafeLit then True else hasUnsafeImport imps)"

definition unsafeImport :: importSpec where
  "unsafeImport = \<lparr>ImportName = Some ''_'', ImportPath = unsafeLit\<rparr>"

text \<open>
  The loop that finds \<open>lastImportDecl\<close>. The pointer is the index of the declaration,
  \<open>None\<close> for nil; \<open>i\<close> is the index of the head of the list.
\<close>

fun lastImportDecl :: "decl list \<Rightarrow> nat \<Rightarrow> nat option \<Rightarrow> nat option" where
  "lastImportDecl [] i found = found"
| "lastImportDecl (d # ds) i found =
     lastImportDecl ds (Suc i)
       (case d of
          GenDecl tok specs \<Rightarrow> if tok = IMPORT then Some i else found
        | _ \<Rightarrow> found)"

text \<open>The block under the comment \<open>Add unsafe import if not present\<close>.\<close>

definition addUnsafeImport :: "astFile \<Rightarrow> astFile" where
  "addUnsafeImport astFile =
     (if hasUnsafeImport (Imports astFile) then astFile
      else
        let f1 = astFile\<lparr>Imports := Imports astFile @ [unsafeImport]\<rparr>
        in case lastImportDecl (Decls f1) 0 None of
             Some i \<Rightarrow>
               (case Decls f1 ! i of
                  GenDecl tok specs \<Rightarrow>
                    f1\<lparr>Decls := (Decls f1)[i := GenDecl tok (specs @ [ImportSpec unsafeImport])]\<rparr>
                | _ \<Rightarrow> f1)
           | None \<Rightarrow> f1\<lparr>Decls := GenDecl IMPORT [ImportSpec unsafeImport] # Decls f1\<rparr>)"

text \<open>The two bodies the rewriter builds.\<close>

definition dialContextBody :: "stmt list" where
  "dialContextBody =
     [ReturnStmt [CallExpr (Ident ''_dialContext'')
        [Ident ''ctx'', Ident ''network'', Ident ''address'']]]"

definition listenBody :: "stmt list" where
  "listenBody =
     [ReturnStmt [CallExpr (Ident ''_listen'') [Ident ''network'', Ident ''address'']]]"

text \<open>
  The loop under the comment \<open>Find the target functions and modify them\<close>, on the two
  flags \<open>foundDialContext\<close> and \<open>foundListen\<close>. The two cases of the switch are tried in
  order.
\<close>

fun replaceBodies :: "decl list \<Rightarrow> bool \<Rightarrow> bool \<Rightarrow> decl list \<times> bool \<times> bool" where
  "replaceBodies [] foundDialContext foundListen = ([], foundDialContext, foundListen)"
| "replaceBodies (d # ds) foundDialContext foundListen =
     (case d of
        FuncDecl funcDecl \<Rightarrow>
          if Name funcDecl = ''DialContext'' \<and> Recv funcDecl \<noteq> None then
            (case replaceBodies ds True foundListen of
               (ds', r) \<Rightarrow> (FuncDecl (funcDecl\<lparr>Body := Some dialContextBody\<rparr>) # ds', r))
          else if Name funcDecl = ''Listen'' \<and> Recv funcDecl = None then
            (case replaceBodies ds foundDialContext True of
               (ds', r) \<Rightarrow> (FuncDecl (funcDecl\<lparr>Body := Some listenBody\<rparr>) # ds', r))
          else
            (case replaceBodies ds foundDialContext foundListen of
               (ds', r) \<Rightarrow> (d # ds', r))
      | _ \<Rightarrow>
          (case replaceBodies ds foundDialContext foundListen of
             (ds', r) \<Rightarrow> (d # ds', r)))"

text \<open>The two declarations without body, each with its linkname directive as \<open>Doc\<close>.\<close>

definition dialContextFuncDecl :: funcDecl where
  "dialContextFuncDecl =
     \<lparr>Doc = [''//go:linkname _dialContext github.com/goccy/wasi-go-net/wasip1.DialContext''],
      Recv = None,
      Name = ''_dialContext'',
      Params =
        [\<lparr>Names = [''ctx''], Type = SelectorExpr (Ident ''context'') ''Context''\<rparr>,
         \<lparr>Names = [''network''], Type = Ident ''string''\<rparr>,
         \<lparr>Names = [''address''], Type = Ident ''string''\<rparr>],
      Results =
        [\<lparr>Names = [], Type = Ident ''Conn''\<rparr>, \<lparr>Names = [], Type = Ident ''error''\<rparr>],
      Body = None\<rparr>"

definition listenFuncDecl :: funcDecl where
  "listenFuncDecl =
     \<lparr>Doc = [''//go:linkname _listen github.com/goccy/wasi-go-net/wasip1.Listen''],
      Recv = None,
      Name = ''_listen'',
      Params =
        [\<lparr>Names = [''network''], Type = Ident ''string''\<rparr>,
         \<lparr>Names = [''address''], Type = Ident ''string''\<rparr>],
      Results =
        [\<lparr>Names = [], Type = Ident ''Listener''\<rparr>, \<lparr>Names = [], Type = Ident ''error''\<rparr>],
      Body = None\<rparr>"

text \<open>
  createReplacedNetSource between the parser and the printer: the import, the bodies, the
  check of the two flags, and the declarations appended.
\<close>

definition rewriteTree :: "string \<Rightarrow> astFile \<Rightarrow> error + astFile" where
  "rewriteTree path astFile0 =
     (let astFile = addUnsafeImport astFile0
      in case replaceBodies (Decls astFile) False False of
           (decls, foundDialContext, foundListen) \<Rightarrow>
             if \<not> foundDialContext \<and> \<not> foundListen then
               Inl (''no target functions (DialContext or Listen) found in '' @ path)
             else
               let decls1 = (if foundDialContext then decls @ [FuncDecl dialContextFuncDecl] else decls);
                   decls2 = (if foundListen then decls1 @ [FuncDecl listenFuncDecl] else decls1)
               in Inr (astFile\<lparr>Decls := decls2\<rparr>))"

definition createReplacedNetSource :: "env \<Rightarrow> string \<Rightarrow> error + string" where
  "createReplacedNetSource e path =
     (case readFile e path of
        Inl err \<Rightarrow> Inl (''failed to read file '' @ path @ '': '' @ err)
      | Inr src \<Rightarrow>
          (case parseFile e src of
             Inl err \<Rightarrow> Inl (''failed to parse file '' @ path @ '': '' @ err)
           | Inr astFile \<Rightarrow>
               (case rewriteTree path astFile of
                  Inl err \<Rightarrow> Inl err
                | Inr t \<Rightarrow>
                    (case formatNode e t of
                       Inl err \<Rightarrow> Inl (''failed to format without comment AST: '' @ err)
                     | Inr content \<Rightarrow> Inr content))))"

section \<open>GetReplacedNetSources\<close>

record ReplacedNetSource =
  Path :: string
  Content :: string

text \<open>The loop over the paths found; the first error ends it.\<close>

fun replaceAll :: "env \<Rightarrow> string list \<Rightarrow> ReplacedNetSource list \<Rightarrow> error + ReplacedNetSource list" where
  "replaceAll e [] ret = Inr ret"
| "replaceAll e (path # paths) ret =
     (case createReplacedNetSource e path of
        Inl err \<Rightarrow> Inl err
      | Inr content \<Rightarrow> replaceAll e paths (ret @ [\<lparr>Path = path, Content = content\<rparr>]))"

definition GetReplacedNetSources :: "env \<Rightarrow> error + ReplacedNetSource list" where
  "GetReplacedNetSources e =
     (case netPkgGoFiles e of
        Inl err \<Rightarrow> Inl err
      | Inr netPkgFiles \<Rightarrow>
          let paths = findSourcePaths e netPkgFiles [dialMatcher, listenMatcher]
          in if length paths = 0 then Inl ''failed to find net package source files''
             else replaceAll e paths [])"

section \<open>OverlayBuilder: CreateOverlayFile and Close\<close>

text \<open>
  The file system the builder writes to: the files with their content; the directory of
  os.TempDir; the strings that os.CreateTemp draws for its names, with the number drawn so
  far; and the errors of the system: \<open>fsOpenErr name\<close> is the error of creating \<open>name\<close>
  other than its existence, \<open>fsWriteErr name\<close> the error of writing to it.
\<close>

record osState =
  fsFiles :: "string \<Rightarrow> string option"
  fsTempDir :: string
  fsRand :: "nat \<Rightarrow> string"
  fsRandPos :: nat
  fsOpenErr :: "string \<Rightarrow> error option"
  fsWriteErr :: "string \<Rightarrow> error option"

text \<open>
  os.CreateTemp of the Go library with the empty directory argument. The pattern must hold
  no separator; it is split at its last \<open>*\<close>, if any; a name is the prefix, a string
  drawn and the suffix; a name that exists is drawn again, at most 10000 times in all. The
  file is created exclusively and empty.
\<close>

definition prefixAndSuffix :: "string \<Rightarrow> error + string \<times> string" where
  "prefixAndSuffix pattern =
     (if CHR ''/'' \<in> set pattern then Inl ''pattern contains path separator''
      else if CHR ''*'' \<in> set pattern then
        Inr (rev (tl (dropWhile (\<lambda>c. c \<noteq> CHR ''*'') (rev pattern))),
             rev (takeWhile (\<lambda>c. c \<noteq> CHR ''*'') (rev pattern)))
      else Inr (pattern, []))"

definition joinPath :: "string \<Rightarrow> string \<Rightarrow> string" where
  "joinPath dir name =
     (if dir \<noteq> [] \<and> last dir = CHR ''/'' then dir @ name else dir @ ''/'' @ name)"

fun createTempTry :: "nat \<Rightarrow> string \<Rightarrow> string \<Rightarrow> osState \<Rightarrow> (error + string) \<times> osState" where
  "createTempTry 0 prefix suffix st =
     (Inl (''createtemp '' @ prefix @ ''*'' @ suffix @ '': file exists''), st)"
| "createTempTry (Suc n) prefix suffix st =
     (let name = prefix @ fsRand st (fsRandPos st) @ suffix;
          st1 = st\<lparr>fsRandPos := Suc (fsRandPos st)\<rparr>
      in if fsFiles st1 name \<noteq> None then createTempTry n prefix suffix st1
         else (case fsOpenErr st1 name of
                 Some err \<Rightarrow> (Inl err, st1)
               | None \<Rightarrow> (Inr name, st1\<lparr>fsFiles := (fsFiles st1)(name \<mapsto> [])\<rparr>)))"

definition CreateTemp :: "string \<Rightarrow> osState \<Rightarrow> (error + string) \<times> osState" where
  "CreateTemp pattern st =
     (case prefixAndSuffix pattern of
        Inl err \<Rightarrow> (Inl (''createtemp '' @ pattern @ '': '' @ err), st)
      | Inr (prefix, suffix) \<Rightarrow> createTempTry 10000 (joinPath (fsTempDir st) prefix) suffix st)"

text \<open>File.Write on the file of that name: the bytes are added to its content.\<close>

definition Write :: "string \<Rightarrow> string \<Rightarrow> osState \<Rightarrow> error option \<times> osState" where
  "Write name content st =
     (case fsWriteErr st name of
        Some err \<Rightarrow> (Some err, st)
      | None \<Rightarrow>
          (None, st\<lparr>fsFiles := (fsFiles st)(name \<mapsto>
             (case fsFiles st name of None \<Rightarrow> content | Some old \<Rightarrow> old @ content))\<rparr>))"


text \<open>
  The struct OverlayFile; its fields \<open>path\<close> and \<open>tmpFilePaths\<close> carry a prefix here, the
  names being those of variables too.
\<close>

record OverlayFile =
  overlayPath :: string
  overlayTmpFilePaths :: "string list"

text \<open>
  The loop of CreateOverlayFile over the sources. \<open>overlayMap\<close> is a Go map from string to
  string, modelled by an association list with one pair for each key; the assignment
  \<open>overlayMap[k] = v\<close> is \<open>AList.update k v\<close>. The state is returned on an error too: the
  files created so far stay.
\<close>

fun writeSrcs :: "ReplacedNetSource list \<Rightarrow> string list \<Rightarrow> (string \<times> string) list \<Rightarrow> osState
    \<Rightarrow> (error + string list \<times> (string \<times> string) list) \<times> osState" where
  "writeSrcs [] tmpFilePaths overlayMap st = (Inr (tmpFilePaths, overlayMap), st)"
| "writeSrcs (src # srcs) tmpFilePaths overlayMap st =
     (case CreateTemp (Base (Path src) @ ''_'') st of
        (Inl err, st1) \<Rightarrow> (Inl (''failed to create temp file: '' @ err), st1)
      | (Inr name, st1) \<Rightarrow>
          (case Write name (Content src) st1 of
             (Some err, st2) \<Rightarrow> (Inl (''failed to write file content: '' @ err), st2)
           | (None, st2) \<Rightarrow>
               writeSrcs srcs (tmpFilePaths @ [name])
                 (AList.update (Path src) name overlayMap) st2))"

text \<open>
  The value given to json.Marshal: an object with the one field \<open>Replace\<close>, whose value is
  the object of the map. The encoder writes the keys of a map in sorted order.
\<close>

definition overlayJson :: "(string \<times> string) list \<Rightarrow> json" where
  "overlayJson overlayMap =
     JObject [(''Replace'', JObject (map (\<lambda>kv. (fst kv, JString (snd kv))) (sort_key fst overlayMap)))]"

definition CreateOverlayFile :: "env \<Rightarrow> ReplacedNetSource list \<Rightarrow> osState \<Rightarrow> (error + OverlayFile) \<times> osState" where
  "CreateOverlayFile e srcs st =
     (case writeSrcs srcs [] [] st of
        (Inl err, st1) \<Rightarrow> (Inl err, st1)
      | (Inr (tmpFilePaths, overlayMap), st1) \<Rightarrow>
          (case CreateTemp ''wasi_go_net_overlay'' st1 of
             (Inl err, st2) \<Rightarrow> (Inl (''failed to create temp file: '' @ err), st2)
           | (Inr name, st2) \<Rightarrow>
               (case marshal e (overlayJson overlayMap) of
                  Inl err \<Rightarrow> (Inl (''failed to create overlay file content: '' @ err), st2)
                | Inr content \<Rightarrow>
                    (case Write name content st2 of
                       (Some err, st3) \<Rightarrow> (Inl (''failed to write file content: '' @ err), st3)
                     | (None, st3) \<Rightarrow>
                         (Inr \<lparr>overlayPath = name, overlayTmpFilePaths = tmpFilePaths\<rparr>, st3)))))"



definition CreateReplacedNetPkgOverlayFile :: "env \<Rightarrow> osState \<Rightarrow> (error + OverlayFile) \<times> osState" where
  "CreateReplacedNetPkgOverlayFile e st =
     (case GetReplacedNetSources e of
        Inl err \<Rightarrow> (Inl err, st)
      | Inr srcs \<Rightarrow> CreateOverlayFile e srcs st)"

section \<open>Notions used to state the properties\<close>

text \<open>
  A file matches when it can be read and parsed and one of its function declarations
  satisfies one of the matchers.
\<close>

definition fileMatches :: "env \<Rightarrow> (funcDecl \<Rightarrow> bool) list \<Rightarrow> string \<Rightarrow> bool" where
  "fileMatches e matchers p =
     (case readFile e p of
        Inl _ \<Rightarrow> False
      | Inr src \<Rightarrow>
          (case parseFile e src of
             Inl _ \<Rightarrow> False
           | Inr astFile \<Rightarrow>
               (\<exists>fd. FuncDecl fd \<in> set (Decls astFile) \<and> (\<exists>matcher \<in> set matchers. matcher fd))))"

text \<open>The function declarations among the top-level declarations, in order.\<close>

fun funcDecls :: "decl list \<Rightarrow> funcDecl list" where
  "funcDecls [] = []"
| "funcDecls (FuncDecl fd # ds) = fd # funcDecls ds"
| "funcDecls (d # ds) = funcDecls ds"



fun isImportDecl :: "decl \<Rightarrow> bool" where
  "isImportDecl (GenDecl tok specs) = (tok = IMPORT)"
| "isImportDecl d = False"

text \<open>The names of the formal parameters of a function declaration, in order.\<close>

definition paramNames :: "funcDecl \<Rightarrow> string list" where
  "paramNames fd = concat (map Names (Params fd))"

text \<open>
  The dial-predicate in the words of the specification: the name is \<open>DialContext\<close> and
  the receiver list is one parameter whose type is a pointer to the identifier \<open>Dialer\<close>.
  It is compared with the condition of the rewriter, and is no part of the program.
\<close>

definition specDialPredicate :: "funcDecl \<Rightarrow> bool" where
  "specDialPredicate fd =
     (Name fd = ''DialContext'' \<and>
      (\<exists>names. Recv fd = Some [\<lparr>Names = names, Type = StarExpr (Ident ''Dialer'')\<rparr>]
          \<and> length names \<le> 1))"

section \<open>Example inputs\<close>

text \<open>
  \<^verbatim>\<open>func (d *Dialer) DialContext(ctx context.Context, network, address string) (Conn, error)\<close>
  with some body.
\<close>

definition dialerDialContext :: funcDecl where
  "dialerDialContext =
     \<lparr>Doc = [],
      Recv = Some [\<lparr>Names = [''d''], Type = StarExpr (Ident ''Dialer'')\<rparr>],
      Name = ''DialContext'',
      Params =
        [\<lparr>Names = [''ctx''], Type = SelectorExpr (Ident ''context'') ''Context''\<rparr>,
         \<lparr>Names = [''network'', ''address''], Type = Ident ''string''\<rparr>],
      Results =
        [\<lparr>Names = [], Type = Ident ''Conn''\<rparr>, \<lparr>Names = [], Type = Ident ''error''\<rparr>],
      Body = Some [OtherStmt ''return nil, nil'']\<rparr>"

text \<open>\<^verbatim>\<open>func Listen(network, address string) (Listener, error)\<close> with some body.\<close>

definition netListen :: funcDecl where
  "netListen =
     \<lparr>Doc = [],
      Recv = None,
      Name = ''Listen'',
      Params = [\<lparr>Names = [''network'', ''address''], Type = Ident ''string''\<rparr>],
      Results =
        [\<lparr>Names = [], Type = Ident ''Listener''\<rparr>, \<lparr>Names = [], Type = Ident ''error''\<rparr>],
      Body = Some [OtherStmt ''return nil, nil'']\<rparr>"

text \<open>
  \<^verbatim>\<open>func (d *socksDialer) DialContext(ctx context.Context, network, address string) (Conn, error)\<close>:
  a method of that name on another type.
\<close>

definition socksDialContext :: funcDecl where
  "socksDialContext =
     dialerDialContext\<lparr>Recv := Some [\<lparr>Names = [''d''], Type = StarExpr (Ident ''socksDialer'')\<rparr>],
       Body := Some [OtherStmt ''return d.connect(ctx, network, address)'']\<rparr>"

text \<open>
  \<^verbatim>\<open>func (d *Dialer) DialContext(c context.Context, nw, addr string) (Conn, error)\<close>:
  the method with other parameter names.
\<close>

definition renamedDialContext :: funcDecl where
  "renamedDialContext =
     dialerDialContext\<lparr>Params :=
        [\<lparr>Names = [''c''], Type = SelectorExpr (Ident ''context'') ''Context''\<rparr>,
         \<lparr>Names = [''nw'', ''addr''], Type = Ident ''string''\<rparr>]\<rparr>"

text \<open>\<^verbatim>\<open>func ( *Dialer) DialContext(...)\<close>: the receiver has no name.\<close>

definition unnamedDialContext :: funcDecl where
  "unnamedDialContext =
     dialerDialContext\<lparr>Recv := Some [\<lparr>Names = [], Type = StarExpr (Ident ''Dialer'')\<rparr>]\<rparr>"

text \<open>\<^verbatim>\<open>func helper()\<close>: no target.\<close>

definition helperFunc :: funcDecl where
  "helperFunc =
     \<lparr>Doc = [], Recv = None, Name = ''helper'', Params = [], Results = [], Body = Some []\<rparr>"

text \<open>Import declarations: \<^verbatim>\<open>import "context"\<close> and \<^verbatim>\<open>import "unsafe"\<close>.\<close>

definition contextImport :: importSpec where
  "contextImport = \<lparr>ImportName = None, ImportPath = CHR 0x22 # ''context'' @ [CHR 0x22]\<rparr>"


text \<open>The files of the examples.\<close>

definition dialFile :: astFile where
  "dialFile =
     \<lparr>Imports = [contextImport],
      Decls = [GenDecl IMPORT [ImportSpec contextImport], FuncDecl dialerDialContext]\<rparr>"

definition listenFile :: astFile where
  "listenFile = \<lparr>Imports = [], Decls = [FuncDecl netListen]\<rparr>"

definition twoDialFile :: astFile where
  "twoDialFile =
     \<lparr>Imports = [contextImport],
      Decls = [GenDecl IMPORT [ImportSpec contextImport],
               FuncDecl dialerDialContext, FuncDecl socksDialContext]\<rparr>"

definition renamedFile :: astFile where
  "renamedFile =
     \<lparr>Imports = [contextImport],
      Decls = [GenDecl IMPORT [ImportSpec contextImport], FuncDecl renamedDialContext]\<rparr>"

definition unnamedFile :: astFile where
  "unnamedFile =
     \<lparr>Imports = [contextImport],
      Decls = [GenDecl IMPORT [ImportSpec contextImport], FuncDecl unnamedDialContext]\<rparr>"

definition bothFile :: astFile where
  "bothFile =
     \<lparr>Imports = [],
      Decls = [FuncDecl netListen, FuncDecl dialerDialContext, FuncDecl netListen]\<rparr>"

definition helperFile :: astFile where
  "helperFile = \<lparr>Imports = [], Decls = [FuncDecl helperFunc]\<rparr>"



text \<open>
  An environment: the command prints the root; the directory of the package holds the
  entries \<open>entries\<close>; the content of a file is its own path, and the parser knows the
  files of \<open>parsed\<close> by their content; the printer and the encoder return a fixed text.
\<close>

definition exampleEnv :: "(string \<times> node) list \<Rightarrow> (string \<times> astFile) list \<Rightarrow> env" where
  "exampleEnv entries parsed =
     \<lparr>goEnv = (''/go'', None),
      netDir = (\<lambda>out. out @ ''/src/net''),
      lstatTree = (\<lambda>root. if root = ''/go/src/net'' then Dir entries else LstatErr ''no such file''),
      readFile = (\<lambda>p. Inr p),
      parseFile = (\<lambda>src. case map_of parsed src of None \<Rightarrow> Inl ''syntax error'' | Some t \<Rightarrow> Inr t),
      formatNode = (\<lambda>t. Inr ''package net''),
      marshal = (\<lambda>j. Inr ''{}'')\<rparr>"

text \<open>
  A file system: the files of \<open>fs\<close>, the temporary directory \<open>/tmp\<close>, the strings
  \<open>r\<close>, \<open>r0\<close>, \<open>r00\<close>, ... drawn in turn, and no error of the system.
\<close>

definition exampleOs :: "(string \<times> string) list \<Rightarrow> osState" where
  "exampleOs fs =
     \<lparr>fsFiles = map_of fs,
      fsTempDir = ''/tmp'',
      fsRand = (\<lambda>n. ''r'' @ replicate n (CHR ''0'')),
      fsRandPos = 0,
      fsOpenErr = (\<lambda>name. None),
      fsWriteErr = (\<lambda>name. None)\<rparr>"

definition exampleSrcs :: "ReplacedNetSource list" where
  "exampleSrcs =
     [\<lparr>Path = ''/go/src/net/dial.go'', Content = ''package net // dial''\<rparr>,
      \<lparr>Path = ''/go/src/net/listen.go'', Content = ''package net // listen''\<rparr>]"

definition exampleOverlay :: OverlayFile where
  "exampleOverlay =
     \<lparr>overlayPath = ''/tmp/wasi_go_net_overlayr00'',
      overlayTmpFilePaths = [''/tmp/dial.go_r'', ''/tmp/listen.go_r0'']\<rparr>"

section \<open>Properties\<close>


lemma set_funcDecls: "set (funcDecls ds) = {fd. FuncDecl fd \<in> set ds}"
  by (induction ds rule: funcDecls.induct) auto

lemma distinct_mapSet: "distinct m \<Longrightarrow> distinct (mapSet k m)"
  by (simp add: mapSet_def)

lemma set_mapSet: "set (mapSet k m) = insert k (set m)"
  by (auto simp: mapSet_def)

lemma distinct_runMatchers: "distinct m \<Longrightarrow> distinct (runMatchers ms fd p m)"
  by (induction ms arbitrary: m) (simp_all add: distinct_mapSet)

lemma set_runMatchers:
  "set (runMatchers ms fd p m) = set m \<union> (if \<exists>mt \<in> set ms. mt fd then {p} else {})"
  by (induction ms arbitrary: m) (auto simp: set_mapSet)

lemma distinct_scanDecls: "distinct m \<Longrightarrow> distinct (scanDecls ms ds p m)"
  by (induction ds arbitrary: m) (simp_all add: distinct_runMatchers split: decl.splits)

lemma set_scanDecls:
  "set (scanDecls ms ds p m) =
     set m \<union> (if \<exists>fd. FuncDecl fd \<in> set ds \<and> (\<exists>mt \<in> set ms. mt fd) then {p} else {})"
proof (induction ds arbitrary: m)
  case Nil
  then show ?case by simp
next
  case (Cons d ds)
  show ?case
  proof (cases d)
    case (FuncDecl fd)
    then show ?thesis using Cons[of "runMatchers ms fd p m"]
      by (auto simp: set_runMatchers split: if_splits)
  next
    case (GenDecl t sp)
    then show ?thesis using Cons[of m] by auto
  next
    case BadDecl
    then show ?thesis using Cons[of m] by auto
  qed
qed

lemma distinct_scanFiles: "distinct m \<Longrightarrow> distinct (scanFiles e ms fs m)"
  by (induction fs arbitrary: m) (simp_all add: distinct_scanDecls split: sum.splits)

lemma scanFiles_step:
  "\<exists>m'. set m' = set m \<union> (if fileMatches e ms p then {p} else {})
        \<and> scanFiles e ms (p # fs) m = scanFiles e ms fs m'"
proof (cases "readFile e p")
  case (Inl a)
  then have "set m = set m \<union> (if fileMatches e ms p then {p} else {})
      \<and> scanFiles e ms (p # fs) m = scanFiles e ms fs m"
    by (simp add: fileMatches_def)
  then show ?thesis by blast
next
  case (Inr src)
  note r = this
  show ?thesis
  proof (cases "parseFile e src")
    case (Inl a)
    then have "set m = set m \<union> (if fileMatches e ms p then {p} else {})
        \<and> scanFiles e ms (p # fs) m = scanFiles e ms fs m"
      using r by (simp add: fileMatches_def)
    then show ?thesis by blast
  next
    case (Inr fl)
    then have "set (scanDecls ms (Decls fl) p m) = set m \<union> (if fileMatches e ms p then {p} else {})
        \<and> scanFiles e ms (p # fs) m = scanFiles e ms fs (scanDecls ms (Decls fl) p m)"
      using r by (simp add: fileMatches_def set_scanDecls)
    then show ?thesis by blast
  qed
qed

lemma set_scanFiles:
  "set (scanFiles e ms fs m) = set m \<union> {p \<in> set fs. fileMatches e ms p}"
proof (induction fs arbitrary: m)
  case Nil
  then show ?case by simp
next
  case (Cons p fs)
  obtain m' where m': "set m' = set m \<union> (if fileMatches e ms p then {p} else {})"
    and step: "scanFiles e ms (p # fs) m = scanFiles e ms fs m'"
    using scanFiles_step[of m e ms p fs] by blast
  show ?case unfolding step Cons[of m'] m' by auto
qed

lemma set_findSourcePaths:
  "set (findSourcePaths e fs ms) = {p \<in> set fs. fileMatches e ms p}"
  by (simp add: findSourcePaths_def set_scanFiles)

text \<open>
  Claim C7. Whatever the candidate files, the working set that findSourcePaths returns holds
  no path twice, is sorted in the lexicographic order of the paths, and holds exactly the
  candidates that match: a file that satisfies both matchers, or has several matching
  declarations, or is listed several times, appears once.
\<close>

theorem findSourcePaths_distinct_sorted:
  "distinct (findSourcePaths e netPkgFiles matchers)
   \<and> sorted (findSourcePaths e netPkgFiles matchers)
   \<and> set (findSourcePaths e netPkgFiles matchers) = {p \<in> set netPkgFiles. fileMatches e matchers p}"
  by (simp add: findSourcePaths_def distinct_scanFiles set_scanFiles)

theorem findSourcePaths_distinct_sorted_witness:
  "findSourcePaths (exampleEnv [] [(''b/listen.go'', bothFile), (''a/dial.go'', dialFile)])
      [''b/listen.go'', ''a/dial.go'', ''doc.go'', ''b/listen.go''] [dialMatcher, listenMatcher]
     = [''a/dial.go'', ''b/listen.go'']
   \<and> distinct (findSourcePaths (exampleEnv [] [(''b/listen.go'', bothFile), (''a/dial.go'', dialFile)])
      [''b/listen.go'', ''a/dial.go'', ''doc.go'', ''b/listen.go''] [dialMatcher, listenMatcher])
   \<and> sorted (findSourcePaths (exampleEnv [] [(''b/listen.go'', bothFile), (''a/dial.go'', dialFile)])
      [''b/listen.go'', ''a/dial.go'', ''doc.go'', ''b/listen.go''] [dialMatcher, listenMatcher])"
proof -
  let ?e = "exampleEnv [] [(''b/listen.go'', bothFile), (''a/dial.go'', dialFile)]"
  let ?fs = "[''b/listen.go'', ''a/dial.go'', ''doc.go'', ''b/listen.go'']"
  have v: "findSourcePaths ?e ?fs [dialMatcher, listenMatcher] = [''a/dial.go'', ''b/listen.go'']"
    by (simp add: findSourcePaths_def exampleEnv_def bothFile_def dialFile_def mapSet_def
          dialMatcher_def listenMatcher_def dialerDialContext_def netListen_def)
  from findSourcePaths_distinct_sorted [of ?e ?fs "[dialMatcher, listenMatcher]"] v
  show ?thesis by simp
qed

text \<open>
  The keys of the map are iterated in an order Go does not fix: the sorted result is the
  same for every order.
\<close>

lemma sort_keys_cong:
  "set xs = set ys \<Longrightarrow> distinct xs \<Longrightarrow> distinct ys \<Longrightarrow> sort xs = sort (ys :: string list)"
  by (rule sorted_distinct_set_unique) simp_all

lemma dialMatcher_unnamed: "Recv fd = Some (r # rs) \<Longrightarrow> Names r = [] \<Longrightarrow> \<not> dialMatcher fd"
  by (simp add: dialMatcher_def)

lemma listenMatcher_method: "Recv fd = Some rs \<Longrightarrow> \<not> listenMatcher fd"
  by (simp add: listenMatcher_def)

text \<open>
  Claim C10. The dial matcher of the discovery pass is false on a method whose single
  receiver parameter has no name, as in \<^verbatim>\<open>func ( *Dialer) DialContext(...)\<close>, whatever
  the type of the receiver; and a file that can be read and parsed, all of whose function
  declarations are such methods, is not in the working set.
\<close>

theorem unnamed_receiver_excluded:
  "(Recv fd = Some [r] \<and> Names r = [] \<longrightarrow> \<not> dialMatcher fd)
   \<and> (readFile e p = Inr src \<and> parseFile e src = Inr astFile
        \<and> (\<forall>d \<in> set (funcDecls (Decls astFile)). \<exists>r. Recv d = Some [r] \<and> Names r = [])
      \<longrightarrow> p \<notin> set (findSourcePaths e netPkgFiles [dialMatcher, listenMatcher]))"
proof (intro conjI impI)
  assume "Recv fd = Some [r] \<and> Names r = []"
  then show "\<not> dialMatcher fd" by (simp add: dialMatcher_unnamed)
next
  assume a: "readFile e p = Inr src \<and> parseFile e src = Inr astFile
        \<and> (\<forall>d \<in> set (funcDecls (Decls astFile)). \<exists>r. Recv d = Some [r] \<and> Names r = [])"
  have "\<not> fileMatches e [dialMatcher, listenMatcher] p"
  proof
    assume "fileMatches e [dialMatcher, listenMatcher] p"
    then obtain d where d: "FuncDecl d \<in> set (Decls astFile)" and m: "dialMatcher d \<or> listenMatcher d"
      using a by (auto simp: fileMatches_def)
    from d have "d \<in> set (funcDecls (Decls astFile))" by (simp add: set_funcDecls)
    then obtain r where "Recv d = Some [r]" "Names r = []" using a by blast
    then show False using m dialMatcher_unnamed listenMatcher_method by blast
  qed
  then show "p \<notin> set (findSourcePaths e netPkgFiles [dialMatcher, listenMatcher])"
    by (simp add: set_findSourcePaths)
qed


theorem unnamed_receiver_excluded_witness:
  "Recv unnamedDialContext = Some [\<lparr>Names = [], Type = StarExpr (Ident ''Dialer'')\<rparr>]
   \<and> Name unnamedDialContext = ''DialContext''
   \<and> \<not> dialMatcher unnamedDialContext
   \<and> readFile (exampleEnv [] [(''/go/src/net/dial.go'', unnamedFile)]) ''/go/src/net/dial.go''
       = Inr ''/go/src/net/dial.go''
   \<and> parseFile (exampleEnv [] [(''/go/src/net/dial.go'', unnamedFile)]) ''/go/src/net/dial.go''
       = Inr unnamedFile
   \<and> funcDecls (Decls unnamedFile) = [unnamedDialContext]
   \<and> ''/go/src/net/dial.go'' \<notin> set (findSourcePaths
         (exampleEnv [] [(''/go/src/net/dial.go'', unnamedFile)])
         [''/go/src/net/dial.go''] [dialMatcher, listenMatcher])"
proof -
  let ?r = "\<lparr>Names = [], Type = StarExpr (Ident ''Dialer'')\<rparr>"
  let ?e = "exampleEnv [] [(''/go/src/net/dial.go'', unnamedFile)]"
  let ?p = "''/go/src/net/dial.go''"
  have h1: "Recv unnamedDialContext = Some [?r] \<and> Names ?r = []"
    by (simp add: unnamedDialContext_def dialerDialContext_def)
  have h2: "readFile ?e ?p = Inr ?p \<and> parseFile ?e ?p = Inr unnamedFile
     \<and> (\<forall>d \<in> set (funcDecls (Decls unnamedFile)). \<exists>r. Recv d = Some [r] \<and> Names r = [])"
    by (simp add: exampleEnv_def unnamedFile_def unnamedDialContext_def dialerDialContext_def)
  have n: "Name unnamedDialContext = ''DialContext''"
    by (simp add: unnamedDialContext_def dialerDialContext_def)
  have f: "funcDecls (Decls unnamedFile) = [unnamedDialContext]"
    by (simp add: unnamedFile_def)
  from unnamed_receiver_excluded [of unnamedDialContext ?r ?e ?p ?p unnamedFile "[?p]"] h1 h2 n f
  show ?thesis by blast
qed

lemma replaceAll_length:
  "replaceAll e paths ret = Inr r \<Longrightarrow> length r = length ret + length paths"
  by (induction paths arbitrary: ret) (auto split: sum.splits)

text \<open>
  Claim C4, amended in the message. GetReplacedNetSources never returns the empty list of
  sources with a nil error; and when discovery returned the candidates and none of them
  matches the dial matcher or the listen matcher, it returns the error
  \<open>failed to find net package source files\<close>.
\<close>

theorem GetReplacedNetSources_no_match:
  "GetReplacedNetSources e \<noteq> Inr []
   \<and> (netPkgGoFiles e = Inr netPkgFiles
        \<and> (\<forall>p \<in> set netPkgFiles. \<not> fileMatches e [dialMatcher, listenMatcher] p)
      \<longrightarrow> GetReplacedNetSources e = Inl ''failed to find net package source files'')"
proof (intro conjI impI)
  show "GetReplacedNetSources e \<noteq> Inr []"
  proof
    assume a: "GetReplacedNetSources e = Inr []"
    then obtain fs where fs: "netPkgGoFiles e = Inr fs"
      by (cases "netPkgGoFiles e") (simp_all add: GetReplacedNetSources_def)
    let ?paths = "findSourcePaths e fs [dialMatcher, listenMatcher]"
    from a fs have ne: "?paths \<noteq> []" and r: "replaceAll e ?paths [] = Inr []"
      by (auto simp: GetReplacedNetSources_def Let_def split: if_splits)
    from replaceAll_length[OF r] ne show False by simp
  qed
next
  assume a: "netPkgGoFiles e = Inr netPkgFiles
        \<and> (\<forall>p \<in> set netPkgFiles. \<not> fileMatches e [dialMatcher, listenMatcher] p)"
  then have "set (findSourcePaths e netPkgFiles [dialMatcher, listenMatcher]) = {}"
    by (auto simp: set_findSourcePaths)
  then have "findSourcePaths e netPkgFiles [dialMatcher, listenMatcher] = []" by simp
  with a show "GetReplacedNetSources e = Inl ''failed to find net package source files''"
    by (simp add: GetReplacedNetSources_def)
qed

lemma netPkgGoFiles_example:
  "netPkgGoFiles (exampleEnv [(''doc.go'', File), (''doc_test.go'', File), (''notes.txt'', File)] parsed)
     = Inr [''/go/src/net/doc.go'']"
  by (simp add: netPkgGoFiles_def netPkgDir_def Walk_def exampleEnv_def walkFn_def Ext_def
        HasSuffix_def Base_def)


lemma not_fileMatches_helper:
  "\<not> fileMatches (exampleEnv entries [(''/go/src/net/doc.go'', helperFile)])
        [dialMatcher, listenMatcher] ''/go/src/net/doc.go''"
  by (simp add: fileMatches_def exampleEnv_def helperFile_def helperFunc_def
        dialMatcher_def listenMatcher_def)

theorem GetReplacedNetSources_no_match_witness:
  "netPkgGoFiles (exampleEnv [(''doc.go'', File), (''doc_test.go'', File), (''notes.txt'', File)]
       [(''/go/src/net/doc.go'', helperFile)]) = Inr [''/go/src/net/doc.go'']
   \<and> \<not> fileMatches (exampleEnv [(''doc.go'', File), (''doc_test.go'', File), (''notes.txt'', File)]
       [(''/go/src/net/doc.go'', helperFile)]) [dialMatcher, listenMatcher] ''/go/src/net/doc.go''
   \<and> GetReplacedNetSources (exampleEnv [(''doc.go'', File), (''doc_test.go'', File), (''notes.txt'', File)]
       [(''/go/src/net/doc.go'', helperFile)]) = Inl ''failed to find net package source files''"
proof -
  let ?e = "exampleEnv [(''doc.go'', File), (''doc_test.go'', File), (''notes.txt'', File)]
       [(''/go/src/net/doc.go'', helperFile)]"
  have h1: "netPkgGoFiles ?e = Inr [''/go/src/net/doc.go'']"
    by (rule netPkgGoFiles_example)
  have h2: "\<not> fileMatches ?e [dialMatcher, listenMatcher] ''/go/src/net/doc.go''"
    by (rule not_fileMatches_helper)
  from GetReplacedNetSources_no_match [of ?e "[''/go/src/net/doc.go'']"] h1 h2
  show ?thesis by simp
qed

text \<open>
  Claim C4 as stated names the message \<open>no source files found\<close>: with no candidate at all,
  the error returned carries another message.
\<close>

theorem GetReplacedNetSources_message_counterexample:
  "GetReplacedNetSources (exampleEnv [] []) = Inl ''failed to find net package source files''
   \<and> GetReplacedNetSources (exampleEnv [] []) \<noteq> Inl ''no source files found''"
  by (simp add: GetReplacedNetSources_def netPkgGoFiles_def netPkgDir_def Walk_def exampleEnv_def
        walkFn_def findSourcePaths_def)

lemma replaceBodies_funcDecls:
  "funcDecls (fst (replaceBodies ds a b)) =
     map (\<lambda>fd. if Name fd = ''DialContext'' \<and> Recv fd \<noteq> None then fd\<lparr>Body := Some dialContextBody\<rparr>
               else if Name fd = ''Listen'' \<and> Recv fd = None then fd\<lparr>Body := Some listenBody\<rparr>
               else fd) (funcDecls ds)"
  by (induction ds arbitrary: a b) (auto simp: case_prod_unfold split: decl.splits)

lemma replaceBodies_flags:
  "snd (replaceBodies ds a b) =
     (a \<or> (\<exists>fd \<in> set (funcDecls ds). Name fd = ''DialContext'' \<and> Recv fd \<noteq> None),
      b \<or> (\<exists>fd \<in> set (funcDecls ds). Name fd = ''Listen'' \<and> Recv fd = None))"
  by (induction ds arbitrary: a b) (auto simp: case_prod_unfold split: decl.splits)



lemma funcDecls_append: "funcDecls (xs @ ys) = funcDecls xs @ funcDecls ys"
  by (induction xs rule: funcDecls.induct) auto



lemma funcDecls_update_GenDecl:
  "i < length ds \<Longrightarrow> ds ! i = GenDecl tok specs \<Longrightarrow> funcDecls (ds[i := GenDecl tok' specs']) = funcDecls ds"
proof (induction ds arbitrary: i)
  case Nil
  then show ?case by simp
next
  case (Cons d ds)
  show ?case
  proof (cases i)
    case 0
    with Cons.prems show ?thesis by simp
  next
    case (Suc k)
    with Cons.prems have "funcDecls (ds[k := GenDecl tok' specs']) = funcDecls ds"
      by (intro Cons.IH) simp_all
    with Suc show ?thesis by (cases d) simp_all
  qed
qed




lemma lastImportDecl_None:
  "lastImportDecl ds i found = None \<longleftrightarrow> found = None \<and> (\<forall>d \<in> set ds. \<not> isImportDecl d)"
proof (induction ds arbitrary: i found)
  case Nil
  then show ?case by simp
next
  case (Cons d ds)
  show ?case by (cases d) (auto simp: Cons.IH)
qed

lemma lastImportDecl_Some:
  "lastImportDecl ds i found = Some k \<Longrightarrow>
     (found = Some k \<and> (\<forall>d \<in> set ds. \<not> isImportDecl d))
     \<or> (i \<le> k \<and> k - i < length ds \<and> isImportDecl (ds ! (k - i))
         \<and> (\<forall>j. k - i < j \<and> j < length ds \<longrightarrow> \<not> isImportDecl (ds ! j)))"
proof (induction ds arbitrary: i found)
  case Nil
  then show ?case by simp
next
  case (Cons d ds)
  let ?found = "(case d of GenDecl tok specs \<Rightarrow> if tok = IMPORT then Some i else found | _ \<Rightarrow> found)"
  from Cons.prems have r: "lastImportDecl ds (Suc i) ?found = Some k" by simp
  from Cons.IH[OF r] show ?case
  proof
    assume a: "?found = Some k \<and> (\<forall>d \<in> set ds. \<not> isImportDecl d)"
    show ?thesis
    proof (cases "isImportDecl d")
      case True
      then obtain specs where d: "d = GenDecl IMPORT specs" by (cases d) auto
      with a have "k = i" by simp
      with a True show ?thesis by (auto simp: nth_Cons split: nat.splits)
    next
      case False
      then have "?found = found" by (cases d) auto
      with a False show ?thesis by auto
    qed
  next
    assume a: "Suc i \<le> k \<and> k - Suc i < length ds \<and> isImportDecl (ds ! (k - Suc i))
         \<and> (\<forall>j. k - Suc i < j \<and> j < length ds \<longrightarrow> \<not> isImportDecl (ds ! j))"
    then have ik: "k - i = Suc (k - Suc i)" by arith
    have "\<forall>j. k - i < j \<and> j < length (d # ds) \<longrightarrow> \<not> isImportDecl ((d # ds) ! j)"
    proof (intro allI impI)
      fix j assume j: "k - i < j \<and> j < length (d # ds)"
      then obtain j' where j': "j = Suc j'" by (cases j) auto
      with j ik have "k - Suc i < j' \<and> j' < length ds" by simp
      with a have "\<not> isImportDecl (ds ! j')" by blast
      with j' show "\<not> isImportDecl ((d # ds) ! j)" by simp
    qed
    with a ik show ?thesis by auto
  qed
qed



lemma lastImportDecl_is_last:
  assumes "i < length ds" and "isImportDecl (ds ! i)"
    and "\<forall>j. i < j \<and> j < length ds \<longrightarrow> \<not> isImportDecl (ds ! j)"
  shows "lastImportDecl ds 0 None = Some i"
proof -
  have "lastImportDecl ds 0 None \<noteq> None"
    using assms(1,2) by (auto simp: lastImportDecl_None)
  then obtain k where k: "lastImportDecl ds 0 None = Some k" by auto
  from lastImportDecl_Some[OF k]
  have kk: "k < length ds" "isImportDecl (ds ! k)"
    "\<forall>j. k < j \<and> j < length ds \<longrightarrow> \<not> isImportDecl (ds ! j)" by auto
  have "\<not> i < k" using kk(1,2) assms(3) by blast
  moreover have "\<not> k < i" using assms(1,2) kk(3) by blast
  ultimately show ?thesis using k by simp
qed

lemma addUnsafeImport_present: "hasUnsafeImport (Imports f) \<Longrightarrow> addUnsafeImport f = f"
  by (simp add: addUnsafeImport_def)


lemma addUnsafeImport_last:
  assumes "\<not> hasUnsafeImport (Imports f)" and "i < length (Decls f)"
    and "Decls f ! i = GenDecl IMPORT specs"
    and "\<forall>j. i < j \<and> j < length (Decls f) \<longrightarrow> \<not> isImportDecl (Decls f ! j)"
  shows "Decls (addUnsafeImport f) = (Decls f)[i := GenDecl IMPORT (specs @ [ImportSpec unsafeImport])]"
proof -
  have "lastImportDecl (Decls f) 0 None = Some i"
    using assms by (intro lastImportDecl_is_last) simp_all
  then show ?thesis using assms(1,3) by (simp add: addUnsafeImport_def)
qed

lemma addUnsafeImport_first:
  assumes "\<not> hasUnsafeImport (Imports f)" and "\<forall>d \<in> set (Decls f). \<not> isImportDecl d"
  shows "Decls (addUnsafeImport f) = GenDecl IMPORT [ImportSpec unsafeImport] # Decls f"
proof -
  have "lastImportDecl (Decls f) 0 None = None"
    using assms(2) by (simp add: lastImportDecl_None)
  then show ?thesis using assms(1) by (simp add: addUnsafeImport_def)
qed

lemma last_import_cases:
  "(\<forall>d \<in> set ds. \<not> isImportDecl d)
   \<or> (\<exists>i specs. i < length ds \<and> ds ! i = GenDecl IMPORT specs
         \<and> (\<forall>j. i < j \<and> j < length ds \<longrightarrow> \<not> isImportDecl (ds ! j)))"
proof (cases "lastImportDecl ds 0 None")
  case None
  then show ?thesis by (simp add: lastImportDecl_None)
next
  case (Some k)
  from lastImportDecl_Some[OF Some]
  have kk: "k < length ds" "isImportDecl (ds ! k)"
    "\<forall>j. k < j \<and> j < length ds \<longrightarrow> \<not> isImportDecl (ds ! j)" by auto
  from kk(2) obtain specs where "ds ! k = GenDecl IMPORT specs"
    by (cases "ds ! k") auto
  with kk show ?thesis by blast
qed

lemma addUnsafeImport_funcDecls: "funcDecls (Decls (addUnsafeImport f)) = funcDecls (Decls f)"
proof (cases "hasUnsafeImport (Imports f)")
  case True
  then show ?thesis by (simp add: addUnsafeImport_present)
next
  case False
  from last_import_cases[of "Decls f"] show ?thesis
  proof
    assume "\<forall>d \<in> set (Decls f). \<not> isImportDecl d"
    from addUnsafeImport_first[OF False this] show ?thesis by simp
  next
    assume "\<exists>i specs. i < length (Decls f) \<and> Decls f ! i = GenDecl IMPORT specs
         \<and> (\<forall>j. i < j \<and> j < length (Decls f) \<longrightarrow> \<not> isImportDecl (Decls f ! j))"
    then obtain i specs where i: "i < length (Decls f)" "Decls f ! i = GenDecl IMPORT specs"
      "\<forall>j. i < j \<and> j < length (Decls f) \<longrightarrow> \<not> isImportDecl (Decls f ! j)" by blast
    from addUnsafeImport_last[OF False i] funcDecls_update_GenDecl[OF i(1,2)]
    show ?thesis by simp
  qed
qed


text \<open>What rewriteTree returns, when it returns a tree.\<close>

lemma rewriteTree_Inr:
  assumes "rewriteTree path f = Inr f'"
  shows "\<exists>stubs. f' = (addUnsafeImport f)\<lparr>Decls :=
            fst (replaceBodies (Decls (addUnsafeImport f)) False False) @ map FuncDecl stubs\<rparr>"
proof -
  let ?g = "addUnsafeImport f"
  obtain ds a b where r: "replaceBodies (Decls ?g) False False = (ds, a, b)"
    by (cases "replaceBodies (Decls ?g) False False") auto
  from assms r have "a \<or> b"
    by (auto simp: rewriteTree_def Let_def split: if_splits)
  let ?stubs = "(if a then [dialContextFuncDecl] else []) @ (if b then [listenFuncDecl] else [])"
  from assms r have "f' = ?g\<lparr>Decls := ds @ map FuncDecl ?stubs\<rparr>"
    by (auto simp: rewriteTree_def Let_def split: if_splits)
  with r show ?thesis by (metis fst_conv)
qed

lemma rewriteTree_Inl:
  assumes "\<forall>fd \<in> set (funcDecls (Decls f)).
      \<not> (Name fd = ''DialContext'' \<and> Recv fd \<noteq> None) \<and> \<not> (Name fd = ''Listen'' \<and> Recv fd = None)"
  shows "rewriteTree path f = Inl (''no target functions (DialContext or Listen) found in '' @ path)"
proof -
  let ?g = "addUnsafeImport f"
  have "snd (replaceBodies (Decls ?g) False False) = (False, False)"
    using assms by (auto simp: replaceBodies_flags addUnsafeImport_funcDecls)
  then obtain ds where "replaceBodies (Decls ?g) False False = (ds, False, False)"
    by (cases "replaceBodies (Decls ?g) False False") auto
  then show ?thesis by (simp add: rewriteTree_def)
qed


text \<open>
  Claim C5. When the file at \<open>path\<close> is read and parsed, and no function declaration of it
  meets either case of the rewriter (so that no body is replaced), createReplacedNetSource
  returns the error that names \<open>path\<close>, and no content.
\<close>

theorem createReplacedNetSource_no_target:
  "readFile e path = Inr src \<and> parseFile e src = Inr astFile
   \<and> (\<forall>fd \<in> set (funcDecls (Decls astFile)).
         \<not> (Name fd = ''DialContext'' \<and> Recv fd \<noteq> None) \<and> \<not> (Name fd = ''Listen'' \<and> Recv fd = None))
   \<longrightarrow> createReplacedNetSource e path
         = Inl (''no target functions (DialContext or Listen) found in '' @ path)"
  by (simp add: createReplacedNetSource_def rewriteTree_Inl del: append.simps)

theorem createReplacedNetSource_no_target_witness:
  "readFile (exampleEnv [] [(''/go/src/net/doc.go'', helperFile)]) ''/go/src/net/doc.go''
      = Inr ''/go/src/net/doc.go''
   \<and> parseFile (exampleEnv [] [(''/go/src/net/doc.go'', helperFile)]) ''/go/src/net/doc.go''
      = Inr helperFile
   \<and> funcDecls (Decls helperFile) = [helperFunc]
   \<and> Name helperFunc = ''helper''
   \<and> createReplacedNetSource (exampleEnv [] [(''/go/src/net/doc.go'', helperFile)]) ''/go/src/net/doc.go''
      = Inl ''no target functions (DialContext or Listen) found in /go/src/net/doc.go''"
proof -
  let ?e = "exampleEnv [] [(''/go/src/net/doc.go'', helperFile)]"
  let ?p = "''/go/src/net/doc.go''"
  have h: "readFile ?e ?p = Inr ?p \<and> parseFile ?e ?p = Inr helperFile
     \<and> funcDecls (Decls helperFile) = [helperFunc] \<and> Name helperFunc = ''helper''"
    by (simp add: exampleEnv_def helperFile_def helperFunc_def)
  then have h': "\<forall>fd \<in> set (funcDecls (Decls helperFile)).
         \<not> (Name fd = ''DialContext'' \<and> Recv fd \<noteq> None) \<and> \<not> (Name fd = ''Listen'' \<and> Recv fd = None)"
    by simp
  from createReplacedNetSource_no_target [of ?e ?p ?p helperFile] h h'
  show ?thesis by simp
qed


lemma rewriteTree_funcDecls:
  assumes "rewriteTree path f = Inr f'"
  shows "\<exists>stubs. funcDecls (Decls f') =
     map (\<lambda>fd. if Name fd = ''DialContext'' \<and> Recv fd \<noteq> None then fd\<lparr>Body := Some dialContextBody\<rparr>
               else if Name fd = ''Listen'' \<and> Recv fd = None then fd\<lparr>Body := Some listenBody\<rparr>
               else fd) (funcDecls (Decls f)) @ stubs"
proof -
  from rewriteTree_Inr[OF assms] obtain stubs where
    "f' = (addUnsafeImport f)\<lparr>Decls :=
            fst (replaceBodies (Decls (addUnsafeImport f)) False False) @ map FuncDecl stubs\<rparr>"
    by blast
  then have "funcDecls (Decls f') =
      funcDecls (fst (replaceBodies (Decls (addUnsafeImport f)) False False))
      @ funcDecls (map FuncDecl stubs)"
    by (simp add: funcDecls_append)
  then show ?thesis
    by (simp add: replaceBodies_funcDecls addUnsafeImport_funcDecls)
qed

text \<open>
  Claim C2, amended. In the tree that the rewriter returns, the function declarations of
  the input come first and in order. A method named DialContext has as its body the single
  return of the call of \<open>_dialContext\<close> on the identifiers \<open>ctx\<close>, \<open>network\<close>,
  \<open>address\<close>, and a function Listen without receiver the single return of the call of
  \<open>_listen\<close> on \<open>network\<close>, \<open>address\<close>. These are the names of the formal parameters
  when the declaration names its parameters so.
\<close>

theorem rewriteTree_bodies:
  "rewriteTree path f = Inr f' \<longrightarrow>
     length (funcDecls (Decls f)) \<le> length (funcDecls (Decls f'))
     \<and> (\<forall>i < length (funcDecls (Decls f)).
          (Name (funcDecls (Decls f) ! i) = ''DialContext'' \<and> Recv (funcDecls (Decls f) ! i) \<noteq> None \<longrightarrow>
             funcDecls (Decls f') ! i = (funcDecls (Decls f) ! i)\<lparr>Body :=
               Some [ReturnStmt [CallExpr (Ident ''_dialContext'')
                 [Ident ''ctx'', Ident ''network'', Ident ''address'']]]\<rparr>
             \<and> (paramNames (funcDecls (Decls f) ! i) = [''ctx'', ''network'', ''address''] \<longrightarrow>
                  Body (funcDecls (Decls f') ! i) =
                    Some [ReturnStmt [CallExpr (Ident ''_dialContext'')
                      (map Ident (paramNames (funcDecls (Decls f) ! i)))]]))
          \<and> (Name (funcDecls (Decls f) ! i) = ''Listen'' \<and> Recv (funcDecls (Decls f) ! i) = None \<longrightarrow>
             funcDecls (Decls f') ! i = (funcDecls (Decls f) ! i)\<lparr>Body :=
               Some [ReturnStmt [CallExpr (Ident ''_listen'') [Ident ''network'', Ident ''address'']]]\<rparr>
             \<and> (paramNames (funcDecls (Decls f) ! i) = [''network'', ''address''] \<longrightarrow>
                  Body (funcDecls (Decls f') ! i) =
                    Some [ReturnStmt [CallExpr (Ident ''_listen'')
                      (map Ident (paramNames (funcDecls (Decls f) ! i)))]])))"
proof
  assume a: "rewriteTree path f = Inr f'"
  from rewriteTree_funcDecls[OF a] obtain stubs where
    fd: "funcDecls (Decls f') =
     map (\<lambda>fd. if Name fd = ''DialContext'' \<and> Recv fd \<noteq> None then fd\<lparr>Body := Some dialContextBody\<rparr>
               else if Name fd = ''Listen'' \<and> Recv fd = None then fd\<lparr>Body := Some listenBody\<rparr>
               else fd) (funcDecls (Decls f)) @ stubs"
    by blast
  show "length (funcDecls (Decls f)) \<le> length (funcDecls (Decls f'))
     \<and> (\<forall>i < length (funcDecls (Decls f)).
          (Name (funcDecls (Decls f) ! i) = ''DialContext'' \<and> Recv (funcDecls (Decls f) ! i) \<noteq> None \<longrightarrow>
             funcDecls (Decls f') ! i = (funcDecls (Decls f) ! i)\<lparr>Body :=
               Some [ReturnStmt [CallExpr (Ident ''_dialContext'')
                 [Ident ''ctx'', Ident ''network'', Ident ''address'']]]\<rparr>
             \<and> (paramNames (funcDecls (Decls f) ! i) = [''ctx'', ''network'', ''address''] \<longrightarrow>
                  Body (funcDecls (Decls f') ! i) =
                    Some [ReturnStmt [CallExpr (Ident ''_dialContext'')
                      (map Ident (paramNames (funcDecls (Decls f) ! i)))]]))
          \<and> (Name (funcDecls (Decls f) ! i) = ''Listen'' \<and> Recv (funcDecls (Decls f) ! i) = None \<longrightarrow>
             funcDecls (Decls f') ! i = (funcDecls (Decls f) ! i)\<lparr>Body :=
               Some [ReturnStmt [CallExpr (Ident ''_listen'') [Ident ''network'', Ident ''address'']]]\<rparr>
             \<and> (paramNames (funcDecls (Decls f) ! i) = [''network'', ''address''] \<longrightarrow>
                  Body (funcDecls (Decls f') ! i) =
                    Some [ReturnStmt [CallExpr (Ident ''_listen'')
                      (map Ident (paramNames (funcDecls (Decls f) ! i)))]])))"
    unfolding fd by (simp add: nth_append dialContextBody_def listenBody_def)
qed

text \<open>
  Claim C1, at a file that declares the method DialContext of \<open>*Dialer\<close> and a method
  of the same name on another type. The file is matched by the dial matcher; the rewriter
  replaces the body of both methods, the second of which fails the dial-predicate.
\<close>

theorem rewriteTree_replaces_other_receiver:
  "rewriteTree ''/go/src/net/dial.go'' twoDialFile =
     Inr \<lparr>Imports = [contextImport, unsafeImport],
          Decls = [GenDecl IMPORT [ImportSpec contextImport, ImportSpec unsafeImport],
                   FuncDecl (dialerDialContext\<lparr>Body := Some dialContextBody\<rparr>),
                   FuncDecl (socksDialContext\<lparr>Body := Some dialContextBody\<rparr>),
                   FuncDecl dialContextFuncDecl]\<rparr>
   \<and> dialMatcher dialerDialContext
   \<and> \<not> dialMatcher socksDialContext
   \<and> \<not> specDialPredicate socksDialContext
   \<and> Body socksDialContext \<noteq> Some dialContextBody"
  by (simp add: rewriteTree_def addUnsafeImport_def twoDialFile_def contextImport_def
        unsafeImport_def unsafeLit_def dialerDialContext_def socksDialContext_def
        dialMatcher_def specDialPredicate_def dialContextBody_def)

theorem rewriteTree_bodies_witness:
  "rewriteTree ''/go/src/net/dial.go'' bothFile =
     Inr \<lparr>Imports = [unsafeImport],
          Decls = [GenDecl IMPORT [ImportSpec unsafeImport],
                   FuncDecl (netListen\<lparr>Body := Some listenBody\<rparr>),
                   FuncDecl (dialerDialContext\<lparr>Body := Some dialContextBody\<rparr>),
                   FuncDecl (netListen\<lparr>Body := Some listenBody\<rparr>),
                   FuncDecl dialContextFuncDecl, FuncDecl listenFuncDecl]\<rparr>
   \<and> funcDecls (Decls bothFile) = [netListen, dialerDialContext, netListen]
   \<and> paramNames dialerDialContext = [''ctx'', ''network'', ''address'']
   \<and> paramNames netListen = [''network'', ''address'']
   \<and> Body (dialerDialContext\<lparr>Body := Some dialContextBody\<rparr>) =
        Some [ReturnStmt [CallExpr (Ident ''_dialContext'') (map Ident (paramNames dialerDialContext))]]
   \<and> Body (netListen\<lparr>Body := Some listenBody\<rparr>) =
        Some [ReturnStmt [CallExpr (Ident ''_listen'') (map Ident (paramNames netListen))]]"
proof -
  let ?out = "\<lparr>Imports = [unsafeImport],
          Decls = [GenDecl IMPORT [ImportSpec unsafeImport],
                   FuncDecl (netListen\<lparr>Body := Some listenBody\<rparr>),
                   FuncDecl (dialerDialContext\<lparr>Body := Some dialContextBody\<rparr>),
                   FuncDecl (netListen\<lparr>Body := Some listenBody\<rparr>),
                   FuncDecl dialContextFuncDecl, FuncDecl listenFuncDecl]\<rparr>"
  have h: "rewriteTree ''/go/src/net/dial.go'' bothFile = Inr ?out"
    by (simp add: rewriteTree_def addUnsafeImport_def bothFile_def
        dialerDialContext_def netListen_def)
  have f: "funcDecls (Decls bothFile) = [netListen, dialerDialContext, netListen]"
    by (simp add: bothFile_def)
  have f': "funcDecls (Decls ?out) = [netListen\<lparr>Body := Some listenBody\<rparr>,
      dialerDialContext\<lparr>Body := Some dialContextBody\<rparr>, netListen\<lparr>Body := Some listenBody\<rparr>,
      dialContextFuncDecl, listenFuncDecl]"
    by simp
  have n: "Name dialerDialContext = ''DialContext'' \<and> Recv dialerDialContext \<noteq> None
      \<and> Name netListen = ''Listen'' \<and> Recv netListen = None"
    by (simp add: dialerDialContext_def netListen_def)
  have p: "paramNames dialerDialContext = [''ctx'', ''network'', ''address'']
      \<and> paramNames netListen = [''network'', ''address'']"
    by (simp add: paramNames_def dialerDialContext_def netListen_def)
  from rewriteTree_bodies [of "''/go/src/net/dial.go''" bothFile ?out] h
  have all: "\<forall>i < length (funcDecls (Decls bothFile)).
          (Name (funcDecls (Decls bothFile) ! i) = ''DialContext'' \<and> Recv (funcDecls (Decls bothFile) ! i) \<noteq> None \<longrightarrow>
             (paramNames (funcDecls (Decls bothFile) ! i) = [''ctx'', ''network'', ''address''] \<longrightarrow>
                  Body (funcDecls (Decls ?out) ! i) =
                    Some [ReturnStmt [CallExpr (Ident ''_dialContext'')
                      (map Ident (paramNames (funcDecls (Decls bothFile) ! i)))]]))
          \<and> (Name (funcDecls (Decls bothFile) ! i) = ''Listen'' \<and> Recv (funcDecls (Decls bothFile) ! i) = None \<longrightarrow>
             (paramNames (funcDecls (Decls bothFile) ! i) = [''network'', ''address''] \<longrightarrow>
                  Body (funcDecls (Decls ?out) ! i) =
                    Some [ReturnStmt [CallExpr (Ident ''_listen'')
                      (map Ident (paramNames (funcDecls (Decls bothFile) ! i)))]]))"
    by blast
  from all[rule_format, of 0] f f' n p
  have l: "Body (netListen\<lparr>Body := Some listenBody\<rparr>) =
        Some [ReturnStmt [CallExpr (Ident ''_listen'') (map Ident (paramNames netListen))]]"
    by simp
  from all[rule_format, of 1] f f' n p
  have d: "Body (dialerDialContext\<lparr>Body := Some dialContextBody\<rparr>) =
        Some [ReturnStmt [CallExpr (Ident ''_dialContext'') (map Ident (paramNames dialerDialContext))]]"
    by simp
  from h f p l d show ?thesis by blast
qed

text \<open>
  Claim C2 as stated fails where the method names its parameters \<open>c\<close>, \<open>nw\<close>,
  \<open>addr\<close>: the call built still passes \<open>ctx\<close>, \<open>network\<close>, \<open>address\<close>.
\<close>

theorem rewriteTree_renamed_counterexample:
  "rewriteTree ''/go/src/net/dial.go'' renamedFile =
     Inr \<lparr>Imports = [contextImport, unsafeImport],
          Decls = [GenDecl IMPORT [ImportSpec contextImport, ImportSpec unsafeImport],
                   FuncDecl (renamedDialContext\<lparr>Body := Some dialContextBody\<rparr>),
                   FuncDecl dialContextFuncDecl]\<rparr>
   \<and> specDialPredicate renamedDialContext
   \<and> paramNames renamedDialContext = [''c'', ''nw'', ''addr'']
   \<and> dialContextBody \<noteq>
        [ReturnStmt [CallExpr (Ident ''_dialContext'') (map Ident (paramNames renamedDialContext))]]"
  by (simp add: rewriteTree_def addUnsafeImport_def renamedFile_def contextImport_def
        unsafeImport_def unsafeLit_def dialerDialContext_def renamedDialContext_def
        specDialPredicate_def dialContextBody_def paramNames_def)











lemma createTempTry_Inr:
  "createTempTry n prefix suffix st = (Inr name, st') \<Longrightarrow>
     fsFiles st name = None \<and> fsFiles st' = (fsFiles st)(name \<mapsto> [])
     \<and> fsWriteErr st' = fsWriteErr st"
proof (induction n arbitrary: st)
  case 0
  then show ?case by simp
next
  case (Suc n)
  let ?name = "prefix @ fsRand st (fsRandPos st) @ suffix"
  let ?st1 = "st\<lparr>fsRandPos := Suc (fsRandPos st)\<rparr>"
  show ?case
  proof (cases "fsFiles st ?name")
    case None
    with Suc.prems show ?thesis
      by (auto simp: Let_def split: option.splits)
  next
    case (Some c)
    with Suc.prems have "createTempTry n prefix suffix ?st1 = (Inr name, st')"
      by (simp add: Let_def)
    from Suc.IH[OF this] show ?thesis by simp
  qed
qed

lemma CreateTemp_Inr:
  "CreateTemp pattern st = (Inr name, st') \<Longrightarrow>
     fsFiles st name = None \<and> fsFiles st' = (fsFiles st)(name \<mapsto> [])
     \<and> fsWriteErr st' = fsWriteErr st"
  by (auto simp: CreateTemp_def split: sum.splits prod.splits dest: createTempTry_Inr)

lemma Write_None:
  "Write name content st = (None, st') \<Longrightarrow>
     fsFiles st' = (fsFiles st)(name \<mapsto>
        (case fsFiles st name of None \<Rightarrow> content | Some old \<Rightarrow> old @ content))"
  by (auto simp: Write_def split: option.splits)

text \<open>One round of the loop: a new file, holding the content.\<close>

lemma create_and_write:
  assumes "CreateTemp pattern st = (Inr name, st1)" and "Write name content st1 = (None, st2)"
  shows "fsFiles st name = None" and "fsFiles st2 = (fsFiles st)(name \<mapsto> content)"
proof -
  from CreateTemp_Inr[OF assms(1)]
  have c: "fsFiles st name = None" "fsFiles st1 = (fsFiles st)(name \<mapsto> [])" by simp_all
  from Write_None[OF assms(2)] c(2)
  show "fsFiles st2 = (fsFiles st)(name \<mapsto> content)" by simp
  from c(1) show "fsFiles st name = None" .
qed

lemma writeSrcs_Inr:
  "writeSrcs srcs tmps omap st = (Inr (tmps', omap'), st') \<Longrightarrow>
     \<exists>names. length names = length srcs \<and> tmps' = tmps @ names \<and> distinct names
       \<and> (\<forall>n \<in> set names. fsFiles st n = None)
       \<and> omap' = fold (\<lambda>kv. AList.update (fst kv) (snd kv)) (zip (map Path srcs) names) omap
       \<and> (\<forall>i < length srcs. fsFiles st' (names ! i) = Some (Content (srcs ! i)))
       \<and> (\<forall>q. q \<notin> set names \<longrightarrow> fsFiles st' q = fsFiles st q)"
proof (induction srcs arbitrary: tmps omap st)
  case Nil
  then show ?case by simp
next
  case (Cons src srcs)
  from Cons.prems obtain name st1 where
    c: "CreateTemp (Base (Path src) @ ''_'') st = (Inr name, st1)"
    by (auto split: sum.splits prod.splits option.splits)
  from Cons.prems c obtain st2 where
    w: "Write name (Content src) st1 = (None, st2)"
    by (auto split: sum.splits prod.splits option.splits)
  from Cons.prems c w have
    r: "writeSrcs srcs (tmps @ [name]) (AList.update (Path src) name omap) st2
        = (Inr (tmps', omap'), st')"
    by simp
  from create_and_write[OF c w]
  have fresh: "fsFiles st name = None" and st2: "fsFiles st2 = (fsFiles st)(name \<mapsto> Content src)"
    by simp_all
  from Cons.IH[OF r] obtain names where
    n: "length names = length srcs" "tmps' = (tmps @ [name]) @ names" "distinct names"
      "\<forall>n \<in> set names. fsFiles st2 n = None"
      "omap' = fold (\<lambda>kv. AList.update (fst kv) (snd kv)) (zip (map Path srcs) names)
                 (AList.update (Path src) name omap)"
      "\<forall>i < length srcs. fsFiles st' (names ! i) = Some (Content (srcs ! i))"
      "\<forall>q. q \<notin> set names \<longrightarrow> fsFiles st' q = fsFiles st2 q"
    by blast
  have notin: "name \<notin> set names" using n(4) st2 by auto
  have old: "\<forall>n \<in> set (name # names). fsFiles st n = None"
    using n(4) st2 fresh by (auto split: if_splits)
  have content: "\<forall>i < length (src # srcs). fsFiles st' ((name # names) ! i) = Some (Content ((src # srcs) ! i))"
  proof (intro allI impI)
    fix i assume "i < length (src # srcs)"
    then show "fsFiles st' ((name # names) ! i) = Some (Content ((src # srcs) ! i))"
      using n(6,7) notin st2 by (cases i) auto
  qed
  have rest: "\<forall>q. q \<notin> set (name # names) \<longrightarrow> fsFiles st' q = fsFiles st q"
    using n(7) st2 by auto
  have "length (name # names) = length (src # srcs) \<and> tmps' = tmps @ (name # names)
      \<and> distinct (name # names)
      \<and> omap' = fold (\<lambda>kv. AList.update (fst kv) (snd kv)) (zip (map Path (src # srcs)) (name # names)) omap"
    using n(1,2,3,5) notin by simp
  with old content rest show ?case by blast
qed


lemma update_fresh_key: "k \<notin> fst ` set al \<Longrightarrow> AList.update k v al = al @ [(k, v)]"
  by (induction al) auto

lemma fold_update_distinct:
  "distinct ks \<Longrightarrow> set ks \<inter> fst ` set omap = {} \<Longrightarrow> length vs = length ks \<Longrightarrow>
     fold (\<lambda>kv. AList.update (fst kv) (snd kv)) (zip ks vs) omap = omap @ zip ks vs"
proof (induction ks arbitrary: vs omap)
  case Nil
  then show ?case by simp
next
  case (Cons k ks)
  from Cons.prems(3) obtain v vs' where vs: "vs = v # vs'" by (cases vs) auto
  from Cons.prems(2) have k: "k \<notin> fst ` set omap" by auto
  have "set ks \<inter> fst ` set (omap @ [(k, v)]) = {}"
    using Cons.prems(1,2) by auto
  from Cons.IH[OF _ this, of vs'] Cons.prems(1,3) vs
  have "fold (\<lambda>kv. AList.update (fst kv) (snd kv)) (zip ks vs') (omap @ [(k, v)])
      = (omap @ [(k, v)]) @ zip ks vs'"
    by simp
  then show ?case using vs k by (simp add: update_fresh_key)
qed

lemma map_insort_key: "map f (insort_key f x xs) = insort (f x) (map f xs)"
  by (induction xs) auto

lemma map_sort_key: "map f (sort_key f xs) = sort (map f xs)"
  by (induction xs) (simp_all add: map_insort_key)

text \<open>What CreateOverlayFile has done when it returns a handle.\<close>

lemma CreateOverlayFile_Inr:
  assumes "distinct (map Path srcs)" and "CreateOverlayFile e srcs st = (Inr f, st')"
  shows "\<exists>names content. length names = length srcs \<and> distinct names
      \<and> overlayTmpFilePaths f = names
      \<and> overlayPath f \<notin> set names
      \<and> (\<forall>n \<in> set names. fsFiles st n = None)
      \<and> fsFiles st (overlayPath f) = None
      \<and> marshal e (overlayJson (zip (map Path srcs) names)) = Inr content
      \<and> fsFiles st' (overlayPath f) = Some content
      \<and> (\<forall>i < length srcs. fsFiles st' (names ! i) = Some (Content (srcs ! i)))"
proof -
  from assms(2) obtain tmps omap st1 where
    w: "writeSrcs srcs [] [] st = (Inr (tmps, omap), st1)"
    by (auto simp: CreateOverlayFile_def split: sum.splits prod.splits)
  from assms(2) w obtain m st2 where
    c: "CreateTemp ''wasi_go_net_overlay'' st1 = (Inr m, st2)"
    by (auto simp: CreateOverlayFile_def split: sum.splits prod.splits option.splits)
  from assms(2) w c obtain content where
    j: "marshal e (overlayJson omap) = Inr content"
    by (auto simp: CreateOverlayFile_def split: sum.splits prod.splits option.splits)
  from assms(2) w c j have
    wr: "Write m content st2 = (None, st')" and f: "f = \<lparr>overlayPath = m, overlayTmpFilePaths = tmps\<rparr>"
    by (auto simp: CreateOverlayFile_def split: sum.splits prod.splits option.splits)
  from writeSrcs_Inr[OF w] obtain names where
    n: "length names = length srcs" "tmps = names" "distinct names"
      "\<forall>n \<in> set names. fsFiles st n = None"
      "omap = fold (\<lambda>kv. AList.update (fst kv) (snd kv)) (zip (map Path srcs) names) []"
      "\<forall>i < length srcs. fsFiles st1 (names ! i) = Some (Content (srcs ! i))"
      "\<forall>q. q \<notin> set names \<longrightarrow> fsFiles st1 q = fsFiles st q"
    by auto
  have omap: "omap = zip (map Path srcs) names"
    using fold_update_distinct[OF assms(1), of "[]" names] n(1,5) by simp
  from create_and_write[OF c wr]
  have m: "fsFiles st1 m = None" "fsFiles st' = (fsFiles st1)(m \<mapsto> content)" by simp_all
  have mn: "m \<notin> set names"
  proof
    assume "m \<in> set names"
    then obtain i where "i < length names" "names ! i = m" by (auto simp: in_set_conv_nth)
    with n(1,6) m(1) show False by auto
  qed
  have m0: "fsFiles st m = None" using n(7) mn m(1) by auto
  have k: "\<forall>i < length srcs. fsFiles st' (names ! i) = Some (Content (srcs ! i))"
  proof (intro allI impI)
    fix i assume i: "i < length srcs"
    then have "names ! i \<in> set names" using n(1) by simp
    with mn have "names ! i \<noteq> m" by auto
    with n(6) i m(2) show "fsFiles st' (names ! i) = Some (Content (srcs ! i))" by simp
  qed
  from n(1,2,3,4) mn m0 j omap m(2) k f show ?thesis by auto
qed


text \<open>
  Claim C3. When the paths of the sources are pairwise distinct and CreateOverlayFile
  returns a handle, the file at the path of the handle holds the text that json.Marshal
  gave for an object whose one field \<open>Replace\<close> is an object with as many entries as
  sources; the keys of the entries are the paths of the sources, each once and in sorted
  order; and the value of every entry is the name of a temporary file of the handle, which
  did not exist before the call and now holds the content of the source of that key.
\<close>

theorem CreateOverlayFile_manifest:
  "distinct (map Path srcs) \<and> CreateOverlayFile e srcs st = (Inr f, st') \<longrightarrow>
     (\<exists>entries content.
        marshal e (JObject [(''Replace'', JObject entries)]) = Inr content
        \<and> fsFiles st' (overlayPath f) = Some content
        \<and> length entries = length srcs
        \<and> map fst entries = sort (map Path srcs)
        \<and> (\<forall>kv \<in> set entries. \<exists>src \<in> set srcs. \<exists>tmp \<in> set (overlayTmpFilePaths f).
              fst kv = Path src \<and> snd kv = JString tmp
              \<and> fsFiles st tmp = None \<and> fsFiles st' tmp = Some (Content src)))"
proof
  assume a: "distinct (map Path srcs) \<and> CreateOverlayFile e srcs st = (Inr f, st')"
  from CreateOverlayFile_Inr[of srcs e st f st'] a obtain names content where
    n: "length names = length srcs" "distinct names" "overlayTmpFilePaths f = names"
      "\<forall>n \<in> set names. fsFiles st n = None"
      "marshal e (overlayJson (zip (map Path srcs) names)) = Inr content"
      "fsFiles st' (overlayPath f) = Some content"
      "\<forall>i < length srcs. fsFiles st' (names ! i) = Some (Content (srcs ! i))"
    by blast
  let ?omap = "zip (map Path srcs) names"
  let ?entries = "map (\<lambda>kv. (fst kv, JString (snd kv))) (sort_key fst ?omap)"
  have j: "marshal e (JObject [(''Replace'', JObject ?entries)]) = Inr content"
    using n(5) by (simp add: overlayJson_def)
  have len: "length ?entries = length srcs" using n(1) by simp
  have keys: "map fst ?entries = sort (map Path srcs)"
  proof -
    have "map fst ?entries = map fst (sort_key fst ?omap)" by (simp add: comp_def)
    also have "\<dots> = sort (map fst ?omap)" by (rule map_sort_key)
    finally show ?thesis using n(1) by simp
  qed
  have vals: "\<forall>kv \<in> set ?entries. \<exists>src \<in> set srcs. \<exists>tmp \<in> set (overlayTmpFilePaths f).
              fst kv = Path src \<and> snd kv = JString tmp
              \<and> fsFiles st tmp = None \<and> fsFiles st' tmp = Some (Content src)"
  proof
    fix kv assume "kv \<in> set ?entries"
    then obtain k v where kv: "kv = (k, JString v)" and "(k, v) \<in> set ?omap" by auto
    then obtain i where i: "i < length srcs" "k = Path (srcs ! i)" "v = names ! i"
      using n(1) by (auto simp: in_set_zip)
    then have "srcs ! i \<in> set srcs" "names ! i \<in> set names" using n(1) by simp_all
    with n(3,4,7) i kv
    show "\<exists>src \<in> set srcs. \<exists>tmp \<in> set (overlayTmpFilePaths f).
              fst kv = Path src \<and> snd kv = JString tmp
              \<and> fsFiles st tmp = None \<and> fsFiles st' tmp = Some (Content src)"
      by auto
  qed
  from j n(6) len keys vals
  show "\<exists>entries content.
        marshal e (JObject [(''Replace'', JObject entries)]) = Inr content
        \<and> fsFiles st' (overlayPath f) = Some content
        \<and> length entries = length srcs
        \<and> map fst entries = sort (map Path srcs)
        \<and> (\<forall>kv \<in> set entries. \<exists>src \<in> set srcs. \<exists>tmp \<in> set (overlayTmpFilePaths f).
              fst kv = Path src \<and> snd kv = JString tmp
              \<and> fsFiles st tmp = None \<and> fsFiles st' tmp = Some (Content src))"
    by blast
qed

lemma createTempTry_numeral:
  "createTempTry (numeral k) prefix suffix st =
     (let name = prefix @ fsRand st (fsRandPos st) @ suffix;
          st1 = st\<lparr>fsRandPos := Suc (fsRandPos st)\<rparr>
      in if fsFiles st1 name \<noteq> None then createTempTry (pred_numeral k) prefix suffix st1
         else (case fsOpenErr st1 name of
                 Some err \<Rightarrow> (Inl err, st1)
               | None \<Rightarrow> (Inr name, st1\<lparr>fsFiles := (fsFiles st1)(name \<mapsto> [])\<rparr>)))"
  by (simp add: numeral_eq_Suc)

lemma CreateOverlayFile_example:
  "fst (CreateOverlayFile (exampleEnv [] []) exampleSrcs (exampleOs [])) = Inr exampleOverlay"
  by (simp add: CreateOverlayFile_def exampleEnv_def exampleSrcs_def exampleOs_def
        exampleOverlay_def CreateTemp_def createTempTry_numeral Base_def prefixAndSuffix_def
        joinPath_def Write_def Let_def overlayJson_def)

theorem CreateOverlayFile_manifest_witness:
  "distinct (map Path exampleSrcs)
   \<and> fst (CreateOverlayFile (exampleEnv [] []) exampleSrcs (exampleOs [])) = Inr exampleOverlay
   \<and> (\<exists>entries content.
        marshal (exampleEnv [] []) (JObject [(''Replace'', JObject entries)]) = Inr content
        \<and> fsFiles (snd (CreateOverlayFile (exampleEnv [] []) exampleSrcs (exampleOs [])))
             (overlayPath exampleOverlay) = Some content
        \<and> length entries = 2
        \<and> map fst entries = [''/go/src/net/dial.go'', ''/go/src/net/listen.go''])"
proof -
  let ?e = "exampleEnv [] []"
  let ?st = "exampleOs []"
  let ?st' = "snd (CreateOverlayFile ?e exampleSrcs ?st)"
  have d: "distinct (map Path exampleSrcs)" by (simp add: exampleSrcs_def)
  have r: "fst (CreateOverlayFile ?e exampleSrcs ?st) = Inr exampleOverlay"
    by (rule CreateOverlayFile_example)
  then have h: "CreateOverlayFile ?e exampleSrcs ?st = (Inr exampleOverlay, ?st')"
    by (metis prod.collapse)
  have s: "sort (map Path exampleSrcs) = [''/go/src/net/dial.go'', ''/go/src/net/listen.go'']"
    and l: "length exampleSrcs = 2"
    by (simp_all add: exampleSrcs_def)
  from CreateOverlayFile_manifest [of exampleSrcs ?e ?st exampleOverlay ?st'] d h
  obtain entries content where
    "marshal ?e (JObject [(''Replace'', JObject entries)]) = Inr content"
    "fsFiles ?st' (overlayPath exampleOverlay) = Some content"
    "length entries = length exampleSrcs"
    "map fst entries = sort (map Path exampleSrcs)"
    by blast
  with s l d r show ?thesis by auto
qed







end
